theory Spec2Isabelle
  imports Complex_Main "HOL-Library.Sublist"
begin

section \<open>Python values, telegrams and configuration\<close>

text \<open>
  The values a DSMR object can carry in its attributes, as far as the sensor code
  distinguishes them: \<open>None\<close>, a number (int, float or Decimal, read as an exact
  rational), a string, and any other object (a datetime, a list) that \<open>float()\<close>
  rejects with a TypeError. Binary floating point is outside this model: a number is
  the rational it denotes.
\<close>

datatype pyval = PNone | PNum rat | PStr string | PObj nat

datatype pyerr = TypeError | ValueError

text \<open>
  The keys of a telegram are the OBIS references of dsmr_parser. The sensor code
  compares a key with one constant only, \<open>obis_ref.ELECTRICITY_ACTIVE_TARIFF\<close>; every
  other reference is an opaque name.
\<close>

datatype obis = ELECTRICITY_ACTIVE_TARIFF | OtherObis string

text \<open>
  A DSMR object is read through \<open>getattr(dsmr_object, attribute, None)\<close> only, so it is
  the partial map from attribute names to values. A telegram is a dict from OBIS
  references to DSMR objects; \<open>{}\<close> is \<open>Map.empty\<close>.
\<close>

type_synonym dsmr_object = "string \<rightharpoonup> pyval"

type_synonym telegram = "obis \<rightharpoonup> dsmr_object"

text \<open>
  The entries of the config mapping that the code under study reads:
  \<open>config[CONF_DSMR_VERSION]\<close>, \<open>config.get(CONF_PRECISION, DEFAULT_PRECISION)\<close>
  and \<open>config[CONF_RECONNECT_INTERVAL]\<close>.
\<close>

record config =
  dsmr_version :: string
  precision :: "int option"
  reconnect_interval :: int

text \<open>
  Modelled from the spec: the constant \<open>DEFAULT_PRECISION\<close> of \<open>const.py\<close>, which is
  not among the sources; the spec gives the default numeric display precision as 2.
\<close>

definition DEFAULT_PRECISION :: int where
  "DEFAULT_PRECISION = 2"

section \<open>The builtins \<open>float\<close> and \<open>round\<close>\<close>

definition is_digit :: "char \<Rightarrow> bool" where
  "is_digit c = (c \<in> set ''0123456789'')"

definition digit_val :: "char \<Rightarrow> nat" where
  "digit_val c = of_char c - 48"

definition digits_val :: "string \<Rightarrow> nat" where
  "digits_val cs = foldl (\<lambda>a c. 10 * a + digit_val c) 0 cs"

text \<open>
  The unsigned decimal literals \<open>float()\<close> reads: digits with an optional fraction, or a
  fraction alone (\<open>12\<close>, \<open>12.\<close>, \<open>12.5\<close>, \<open>.5\<close>).
\<close>

definition parse_decimal :: "string \<Rightarrow> rat option" where
  "parse_decimal s =
     (let ip = takeWhile is_digit s; r = dropWhile is_digit s in
      case r of
        [] \<Rightarrow> if ip = [] then None else Some (of_nat (digits_val ip))
      | c # fp \<Rightarrow>
          if c = CHR ''.'' \<and> list_all is_digit fp \<and> 0 < length ip + length fp
          then Some (of_nat (digits_val ip) + of_nat (digits_val fp) / 10 ^ length fp)
          else None)"

text \<open>
  \<open>float(s)\<close> on a string: an optional sign and a decimal literal. A string that is not
  such a literal is rejected (Python raises ValueError). Exponents, underscores,
  surrounding blanks and the non-finite \<open>inf\<close> and \<open>nan\<close> are not covered.
\<close>

definition float_of_str :: "string \<Rightarrow> rat option" where
  "float_of_str s =
     (case s of
        [] \<Rightarrow> None
      | c # r \<Rightarrow>
          if c = CHR ''-'' then map_option uminus (parse_decimal r)
          else if c = CHR ''+'' then parse_decimal r
          else parse_decimal s)"

text \<open>
  \<open>float(value)\<close>: TypeError for \<open>None\<close> and for an object that is neither a number
  nor a string, ValueError for a string that is not a number.
\<close>

fun py_float :: "pyval \<Rightarrow> pyerr + rat" where
  "py_float PNone = Inl TypeError"
| "py_float (PNum x) = Inr x"
| "py_float (PStr s) = (case float_of_str s of None \<Rightarrow> Inl ValueError | Some x \<Rightarrow> Inr x)"
| "py_float (PObj k) = Inl TypeError"

text \<open>Rounding to the nearest integer, a tie going to the even neighbour.\<close>

definition round_half_even :: "rat \<Rightarrow> int" where
  "round_half_even y =
     (let f = \<lfloor>y\<rfloor>; d = y - of_int f in
      if d < 1 / 2 then f
      else if 1 / 2 < d then f + 1
      else if even f then f else f + 1)"

text \<open>\<open>round(x, n)\<close> on a number: to \<open>n\<close> decimal places (to tens, hundreds, ... for negative \<open>n\<close>).\<close>

definition py_round :: "rat \<Rightarrow> int \<Rightarrow> rat" where
  "py_round x n =
     (if 0 \<le> n then of_int (round_half_even (x * 10 ^ nat n)) / 10 ^ nat n
      else of_int (round_half_even (x / 10 ^ nat (- n))) * 10 ^ nat (- n))"

section \<open>DSMREntity\<close>

text \<open>
  The fields of \<open>DSMREntity\<close> that its methods read or write. \<open>hass\<close> is whether the
  framework handle \<open>self.hass\<close> is set (the entity has been added to Home Assistant).
\<close>

record dsmr_entity =
  obis_of :: obis
  config_of :: config
  telegram_of :: telegram
  hass :: bool

text \<open>
  \<open>__init__\<close>: the telegram starts as \<open>{}\<close>; the framework sets \<open>hass\<close> when it adds
  the entity.
\<close>

definition DSMREntity :: "obis \<Rightarrow> config \<Rightarrow> dsmr_entity" where
  "DSMREntity ob cfg = \<lparr>obis_of = ob, config_of = cfg, telegram_of = Map.empty, hass = False\<rparr>"

text \<open>
  \<open>update_data\<close>: store the telegram, then call \<open>async_write_ha_state\<close> when the handle
  is set and the telegram has the entity's OBIS reference. The second component is
  whether that call was made.
\<close>

definition update_data :: "telegram \<Rightarrow> dsmr_entity \<Rightarrow> dsmr_entity \<times> bool" where
  "update_data t e =
     (let e' = e\<lparr>telegram_of := t\<rparr> in
      (e', hass e' \<and> obis_of e' \<in> dom (telegram_of e')))"

definition get_dsmr_object_attr :: "dsmr_entity \<Rightarrow> string \<Rightarrow> pyval" where
  "get_dsmr_object_attr e attribute =
     (case telegram_of e (obis_of e) of
        None \<Rightarrow> PNone
      | Some dsmr_object \<Rightarrow>
          (case dsmr_object attribute of None \<Rightarrow> PNone | Some v \<Rightarrow> v))"

definition translate_tariff :: "pyval \<Rightarrow> string \<Rightarrow> pyval" where
  "translate_tariff v0 version =
     (let v = (if version = ''5B''
               then (if v0 = PStr ''0001'' then PStr ''0002''
                     else if v0 = PStr ''0002'' then PStr ''0001'' else v0)
               else v0) in
      if v = PStr ''0002'' then PStr ''normal''
      else if v = PStr ''0001'' then PStr ''low''
      else PNone)"

text \<open>
  The property \<open>state\<close>. \<open>suppress(TypeError)\<close> lets a TypeError of \<open>float\<close> pass and keeps
  the value read from the telegram; any other exception leaves the property.
\<close>

definition state :: "dsmr_entity \<Rightarrow> pyerr + pyval" where
  "state e =
     (let v = get_dsmr_object_attr e ''value'' in
      if obis_of e = ELECTRICITY_ACTIVE_TARIFF
      then Inr (translate_tariff v (dsmr_version (config_of e)))
      else
        (case py_float v of
           Inr x \<Rightarrow>
             Inr (PNum (py_round x
               (case precision (config_of e) of None \<Rightarrow> DEFAULT_PRECISION | Some p \<Rightarrow> p)))
         | Inl TypeError \<Rightarrow> Inr v
         | Inl ValueError \<Rightarrow> Inl ValueError))"

definition unit_of_measurement :: "dsmr_entity \<Rightarrow> pyval" where
  "unit_of_measurement e = get_dsmr_object_attr e ''unit''"

section \<open>The throttled dispatcher\<close>

text \<open>
  The body of \<open>update_entities_telegram\<close>: every device gets the telegram, in the
  order of the list. Each entry of the result is the updated device and whether it
  wrote its state.
\<close>

definition update_entities_telegram ::
    "telegram \<Rightarrow> dsmr_entity list \<Rightarrow> (dsmr_entity \<times> bool) list" where
  "update_entities_telegram t devs = map (update_data t) devs"

text \<open>
  Modelled from the spec: the decorator \<open>Throttle\<close> of \<open>homeassistant.util\<close>, which is
  not among the sources. The spec: consumers are invoked no more often than once per
  minimum interval; the first call after a quiescent period greater than the interval
  is forwarded at once; a call inside the suppression window is dropped, never queued.
  The throttle keeps the time of the last forwarded call; a call goes through when
  there was none yet or more than the interval has passed since. Times are in seconds.
\<close>

definition throttle_open :: "int \<Rightarrow> int \<Rightarrow> int option \<Rightarrow> bool" where
  "throttle_open interval now prev =
     (case prev of None \<Rightarrow> True | Some l \<Rightarrow> interval < now - l)"

text \<open>
  The dispatcher: the throttle's last forwarded time and the devices that
  \<open>update_entities_telegram\<close> closes over.
\<close>

record dispatcher =
  last_call :: "int option"
  devices :: "dsmr_entity list"

text \<open>
  One call of the throttled \<open>update_entities_telegram\<close> at time \<open>now\<close>. The second
  component is whether the call reached the devices.
\<close>

definition publish :: "int \<Rightarrow> int \<Rightarrow> telegram \<Rightarrow> dispatcher \<Rightarrow> dispatcher \<times> bool" where
  "publish interval now t d =
     (if throttle_open interval now (last_call d)
      then (d\<lparr>last_call := Some now,
               devices := map fst (update_entities_telegram t (devices d))\<rparr>, True)
      else (d, False))"

text \<open>
  A sequence of calls, each with its time and telegram; the result is the dispatcher at
  the end and the calls that reached the devices, in order.
\<close>

fun publish_all ::
    "int \<Rightarrow> dispatcher \<Rightarrow> (int \<times> telegram) list \<Rightarrow> dispatcher \<times> (int \<times> telegram) list" where
  "publish_all interval d [] = (d, [])"
| "publish_all interval d ((now, t) # ps) =
     (case publish interval now t d of
        (d', fw) \<Rightarrow>
          (case publish_all interval d' ps of
             (d'', fws) \<Rightarrow> (d'', (if fw then [(now, t)] else []) @ fws)))"

section \<open>The supervisor \<open>connect_and_reconnect\<close>\<close>

text \<open>
  The coroutine is a machine that runs from one suspension point to the next. Its
  control points: the three \<open>await\<close>s of the loop (\<open>reader_factory()\<close>,
  \<open>protocol.wait_closed()\<close>, \<open>asyncio.sleep\<close>), the \<open>await protocol.wait_closed()\<close>
  of the CancelledError handler, and the end of the coroutine.
\<close>

datatype pc = AwaitOpen | AwaitClosed | AwaitSleep | CancelWaitClosed | Done

text \<open>
  The local variables \<open>stop_listener\<close>, \<open>transport\<close> and \<open>protocol\<close> (whether each is
  set), and what the coroutine shares with the host: whether the stop listener is still
  registered on the bus, whether a connection is open, and whether \<open>hass.state\<close> is
  \<open>CoreState.stopping\<close> (then \<open>hass.is_stopping\<close> holds as well).
\<close>

record sup =
  pc :: pc
  stop_listener :: bool
  transport :: bool
  protocol :: bool
  listening :: bool
  conn_open :: bool
  stopping :: bool

text \<open>What the coroutine does, in the order it does it.\<close>

datatype action =
    Connect
  | ListenOnce
  | Unlisten
  | WaitClosed
  | UpdateEntitiesEmpty
  | Sleep int
  | LogException
  | TransportClose
  | Return

text \<open>
  What resumes the coroutine at a suspension point: \<open>reader_factory()\<close> returns a
  transport, returns none, or raises SerialException or OSError; the connection is
  closed; the sleep is over; the task is cancelled. \<open>HassStop\<close> is the host beginning
  its shutdown while the coroutine is suspended.
\<close>

datatype event = OpenOk | OpenNoTransport | OpenError | Closed | Wake | Cancel | HassStop

text \<open>The head of the \<open>while\<close> loop: leave when the host is stopping, else connect.\<close>

definition loop_head :: "sup \<Rightarrow> sup \<times> action list" where
  "loop_head s =
     (if stopping s then (s\<lparr>pc := Done\<rparr>, [Return])
      else (s\<lparr>pc := AwaitOpen\<rparr>, [Connect]))"

text \<open>
  The lines after the \<open>if transport:\<close> block: forget the transport, send the empty
  telegram, sleep the reconnect interval.
\<close>

definition disconnected :: "config \<Rightarrow> sup \<Rightarrow> sup \<times> action list" where
  "disconnected cfg s =
     (s\<lparr>transport := False, protocol := False, pc := AwaitSleep\<rparr>,
      [UpdateEntitiesEmpty, Sleep (reconnect_interval cfg)])"

text \<open>The handler of CancelledError.\<close>

definition on_cancel :: "sup \<Rightarrow> sup \<times> action list" where
  "on_cancel s =
     (let s1 = (if stop_listener s then s\<lparr>listening := False\<rparr> else s);
          a1 = (if stop_listener s then [Unlisten] else []);
          a2 = (if transport s then [TransportClose] else [])
      in if protocol s then (s1\<lparr>pc := CancelWaitClosed\<rparr>, a1 @ a2 @ [WaitClosed])
         else (s1\<lparr>pc := Done\<rparr>, a1 @ a2 @ [Return]))"

text \<open>
  Modelled from the spec: the host's one-shot global stop, whose bus and core state are
  not among the sources. The host enters \<open>CoreState.stopping\<close> and fires
  \<open>EVENT_HOMEASSISTANT_STOP\<close>; a listener registered with \<open>async_listen_once\<close> runs
  once (here \<open>transport.close\<close>) and is registered no more.
\<close>

definition hass_stop :: "sup \<Rightarrow> sup \<times> action list" where
  "hass_stop s =
     (if listening s then (s\<lparr>stopping := True, listening := False\<rparr>, [TransportClose])
      else (s\<lparr>stopping := True\<rparr>, []))"

text \<open>
  One step: from the suspension point \<open>pc s\<close>, resumed by the event, to the next
  suspension point. \<open>None\<close> when the event cannot occur at that point.
\<close>

fun step :: "config \<Rightarrow> sup \<Rightarrow> event \<Rightarrow> (sup \<times> action list) option" where
  "step cfg s HassStop = (if pc s = Done then None else Some (hass_stop s))"
| "step cfg s Cancel =
     (if pc s = Done then None
      else if pc s = CancelWaitClosed then Some (s\<lparr>pc := Done\<rparr>, [])
      else Some (on_cancel s))"
| "step cfg s OpenOk =
     (if pc s = AwaitOpen
      then Some (s\<lparr>transport := True, protocol := True, conn_open := True,
                    stop_listener := True, listening := True, pc := AwaitClosed\<rparr>,
                 [ListenOnce, WaitClosed])
      else None)"
| "step cfg s OpenNoTransport =
     (if pc s = AwaitOpen then Some (disconnected cfg s) else None)"
| "step cfg s OpenError =
     (if pc s = AwaitOpen
      then (case loop_head (s\<lparr>transport := False, protocol := False\<rparr>) of
              (s', a) \<Rightarrow> Some (s', LogException # a))
      else None)"
| "step cfg s Closed =
     (if pc s = AwaitClosed
      then (let s1 = s\<lparr>conn_open := False\<rparr>;
                s2 = (if stopping s1 then s1 else s1\<lparr>listening := False\<rparr>);
                a1 = (if stopping s1 then [] else [Unlisten])
            in case disconnected cfg s2 of (s', a) \<Rightarrow> Some (s', a1 @ a))
      else if pc s = CancelWaitClosed
      then Some (s\<lparr>conn_open := False, pc := Done\<rparr>, [Return])
      else None)"
| "step cfg s Wake = (if pc s = AwaitSleep then Some (loop_head s) else None)"

text \<open>A run: the events in order; the actions of the steps, concatenated.\<close>

fun run :: "config \<Rightarrow> sup \<Rightarrow> event list \<Rightarrow> (sup \<times> action list) option" where
  "run cfg s [] = Some (s, [])"
| "run cfg s (e # es) =
     (case step cfg s e of
        None \<Rightarrow> None
      | Some (s', a) \<Rightarrow>
          (case run cfg s' es of None \<Rightarrow> None | Some (s'', b) \<Rightarrow> Some (s'', a @ b)))"

text \<open>
  The coroutine from its start: the three locals are \<open>None\<close>, nothing is registered or
  open; \<open>st0\<close> is whether the host is already stopping.
\<close>

definition initial :: "bool \<Rightarrow> sup" where
  "initial st0 =
     \<lparr>pc = AwaitOpen, stop_listener = False, transport = False, protocol = False,
      listening = False, conn_open = False, stopping = st0\<rparr>"

definition connect_and_reconnect ::
    "config \<Rightarrow> bool \<Rightarrow> event list \<Rightarrow> (sup \<times> action list) option" where
  "connect_and_reconnect cfg st0 es =
     (case loop_head (initial st0) of
        (s, a) \<Rightarrow>
          (case run cfg s es of None \<Rightarrow> None | Some (s', b) \<Rightarrow> Some (s', a @ b)))"


section \<open>The supervisor and the dispatcher together\<close>

text \<open>
  The reader calls the throttled \<open>update_entities_telegram\<close> for every telegram that
  arrives on an open connection; the supervisor calls it with \<open>{}\<close>. An input of the
  whole is a telegram from the reader or an event of the supervisor, at a time.
\<close>

datatype input = Telegram telegram | Sup event

record system =
  supervisor :: sup
  dispatch :: dispatcher

definition system_step ::
    "config \<Rightarrow> int \<Rightarrow> system \<Rightarrow> int \<times> input \<Rightarrow> system option" where
  "system_step cfg interval sys ti =
     (case snd ti of
        Telegram t \<Rightarrow>
          (if conn_open (supervisor sys)
           then Some (sys\<lparr>dispatch := fst (publish interval (fst ti) t (dispatch sys))\<rparr>)
           else None)
      | Sup e \<Rightarrow>
          (case step cfg (supervisor sys) e of
             None \<Rightarrow> None
           | Some (s', a) \<Rightarrow>
               Some \<lparr>supervisor = s',
                     dispatch = (if UpdateEntitiesEmpty \<in> set a
                                 then fst (publish interval (fst ti) Map.empty (dispatch sys))
                                 else dispatch sys)\<rparr>))"

fun system_run :: "config \<Rightarrow> int \<Rightarrow> system \<Rightarrow> (int \<times> input) list \<Rightarrow> system option" where
  "system_run cfg interval sys [] = Some sys"
| "system_run cfg interval sys (ti # tis) =
     (case system_step cfg interval sys ti of
        None \<Rightarrow> None
      | Some sys' \<Rightarrow> system_run cfg interval sys' tis)"

section \<open>Rounding and reading: auxiliary facts\<close>




lemma py_float_abc: "py_float (PStr ''abc'') = Inl ValueError"
  by (simp add: float_of_str_def parse_decimal_def is_digit_def)



lemma get_attr_absent:
  "telegram_of e (obis_of e) = None \<Longrightarrow> get_dsmr_object_attr e a = PNone"
  by (simp add: get_dsmr_object_attr_def)


lemma translate_tariff_None: "translate_tariff PNone ver = PNone"
  by (simp add: translate_tariff_def)

lemma state_of_None:
  "get_dsmr_object_attr e ''value'' = PNone \<Longrightarrow> state e = Inr PNone"
  by (simp add: state_def translate_tariff_None)

lemma get_attr_hass: "get_dsmr_object_attr (e\<lparr>hass := b\<rparr>) a = get_dsmr_object_attr e a"
  by (simp add: get_dsmr_object_attr_def)

lemma state_hass: "state (e\<lparr>hass := b\<rparr>) = state e"
  by (auto simp: state_def Let_def get_attr_hass split: option.splits sum.splits pyerr.splits)

lemma fst_update_data: "fst (update_data t e) = e\<lparr>telegram_of := t\<rparr>"
  by (simp add: update_data_def)

section \<open>The supervisor and the throttle: auxiliary facts\<close>






lemma publish_closed:
  "\<not> throttle_open i now (last_call d) \<Longrightarrow> publish i now t d = (d, False)"
  by (simp add: publish_def)

lemma publish_open:
  "throttle_open i now (last_call d) \<Longrightarrow>
   publish i now t d =
     (d\<lparr>last_call := Some now, devices := map (\<lambda>e. e\<lparr>telegram_of := t\<rparr>) (devices d)\<rparr>, True)"
  by (simp add: publish_def update_entities_telegram_def update_data_def comp_def)

lemma publish_all_append:
  "publish_all i d (ps @ qs) =
     (case publish_all i d ps of
        (d1, f1) \<Rightarrow> (case publish_all i d1 qs of (d2, f2) \<Rightarrow> (d2, f1 @ f2)))"
proof (induction ps arbitrary: d)
  case Nil
  then show ?case by (simp split: prod.splits)
next
  case (Cons p ps)
  obtain now t where p: "p = (now, t)" by (cases p)
  show ?case unfolding p by (simp add: Cons.IH split: prod.splits)
qed

lemma publish_all_subseq:
  "publish_all i d ps = (d', fws) \<Longrightarrow> subseq fws ps"
proof (induction ps arbitrary: d d' fws)
  case Nil
  then show ?case by simp
next
  case (Cons p ps)
  obtain now t where p: "p = (now, t)" by (cases p)
  obtain d1 fw where d1: "publish i now t d = (d1, fw)" by (cases "publish i now t d")
  obtain d2 f2 where d2: "publish_all i d1 ps = (d2, f2)" by (cases "publish_all i d1 ps")
  from Cons.IH [OF d2] have "subseq f2 ps" .
  moreover from Cons.prems p d1 d2 have "fws = (if fw then [(now, t)] else []) @ f2" by simp
  ultimately show ?case unfolding p by (cases fw) auto
qed

lemma publish_all_spaced:
  assumes "0 \<le> i" and "publish_all i d ps = (d', fws)"
  shows "sorted_wrt (\<lambda>a b. i < fst b - fst a) fws \<and>
         (\<forall>p\<in>set fws. throttle_open i (fst p) (last_call d))"
  using assms(2)
proof (induction ps arbitrary: d d' fws)
  case Nil
  then show ?case by simp
next
  case (Cons p ps)
  obtain now t where p: "p = (now, t)" by (cases p)
  obtain d2 f2 where d2: "publish_all i (fst (publish i now t d)) ps = (d2, f2)"
    by (cases "publish_all i (fst (publish i now t d)) ps")
  note IH = Cons.IH [OF d2]
  show ?case
  proof (cases "throttle_open i now (last_call d)")
    case True
    with Cons.prems p d2 have fws: "fws = (now, t) # f2"
      by (simp add: publish_open)
    from True have lc: "last_call (fst (publish i now t d)) = Some now"
      by (simp add: publish_open)
    from IH lc have later: "\<forall>q\<in>set f2. i < fst q - now"
      by (simp add: throttle_open_def)
    have "\<forall>q\<in>set f2. throttle_open i (fst q) (last_call d)"
    proof
      fix q assume "q \<in> set f2"
      with later have "i < fst q - now" by blast
      with True assms(1) show "throttle_open i (fst q) (last_call d)"
        by (auto simp: throttle_open_def split: option.splits)
    qed
    with IH later True show ?thesis unfolding fws by simp
  next
    case False
    with Cons.prems p d2 have "fws = f2" by (simp add: publish_closed)
    moreover from False have "fst (publish i now t d) = d" by (simp add: publish_closed)
    ultimately show ?thesis using IH by simp
  qed
qed

lemma publish_all_last_call:
  "publish_all i d ps = (d', fws) \<Longrightarrow>
   last_call d' = (if fws = [] then last_call d else Some (fst (last fws)))"
proof (induction ps arbitrary: d d' fws)
  case Nil
  then show ?case by auto
next
  case (Cons p ps)
  obtain now t where p: "p = (now, t)" by (cases p)
  obtain d2 f2 where d2: "publish_all i (fst (publish i now t d)) ps = (d2, f2)"
    by (cases "publish_all i (fst (publish i now t d)) ps")
  note IH = Cons.IH [OF d2]
  show ?case
  proof (cases "throttle_open i now (last_call d)")
    case True
    with Cons.prems p d2 have "fws = (now, t) # f2" and "d' = d2"
      by (simp_all add: publish_open)
    moreover from True have "last_call (fst (publish i now t d)) = Some now"
      by (simp add: publish_open)
    ultimately show ?thesis using IH by simp
  next
    case False
    with Cons.prems p d2 have "fws = f2" and "d' = d2" by (simp_all add: publish_closed)
    moreover from False have "fst (publish i now t d) = d" by (simp add: publish_closed)
    ultimately show ?thesis using IH by simp
  qed
qed

lemma publish_all_window:
  "last_call d = Some l \<Longrightarrow> \<forall>q\<in>set qs. fst q - l \<le> i \<Longrightarrow> publish_all i d qs = (d, [])"
proof (induction qs)
  case Nil
  then show ?case by simp
next
  case (Cons q qs)
  obtain now t where q: "q = (now, t)" by (cases q)
  from Cons.prems q have "\<not> throttle_open i now (last_call d)"
    by (simp add: throttle_open_def)
  then have "publish i now t d = (d, False)" by (rule publish_closed)
  with Cons q show ?case by simp
qed

section \<open>The claims about DSMREntity\<close>




text \<open>
  C6: the tariff codes. Outside the Belgian dialect \<open>5B\<close>, \<open>0001\<close> is low and \<open>0002\<close> is
  normal; in \<open>5B\<close> the two are swapped; every other value, \<open>None\<close> included, gives
  \<open>None\<close>. The state of the tariff entity is this translation of its value.
\<close>

theorem translate_tariff_table:
  "translate_tariff v ver =
     (if v = PStr ''0001'' then (if ver = ''5B'' then PStr ''normal'' else PStr ''low'')
      else if v = PStr ''0002'' then (if ver = ''5B'' then PStr ''low'' else PStr ''normal'')
      else PNone) \<and>
   (obis_of e = ELECTRICITY_ACTIVE_TARIFF \<longrightarrow>
      state e = Inr (translate_tariff (get_dsmr_object_attr e ''value'')
                       (dsmr_version (config_of e))))"
  by (simp add: translate_tariff_def state_def)

theorem translate_tariff_table_witness:
  "state \<lparr>obis_of = ELECTRICITY_ACTIVE_TARIFF,
          config_of = \<lparr>dsmr_version = ''5B'', precision = None, reconnect_interval = 30\<rparr>,
          telegram_of = [ELECTRICITY_ACTIVE_TARIFF \<mapsto> [''value'' \<mapsto> PStr ''0001'']],
          hass = True\<rparr> = Inr (PStr ''normal'') \<and>
   translate_tariff (PStr ''0001'') ''5B'' = PStr ''normal'' \<and>
   translate_tariff (PStr ''0002'') ''5B'' = PStr ''low'' \<and>
   translate_tariff (PStr ''0001'') ''2.2'' = PStr ''low'' \<and>
   translate_tariff (PStr ''0002'') ''2.2'' = PStr ''normal'' \<and>
   translate_tariff (PStr ''0003'') ''5B'' = PNone \<and>
   translate_tariff PNone ''4'' = PNone"
proof -
  let ?e = "\<lparr>obis_of = ELECTRICITY_ACTIVE_TARIFF,
          config_of = \<lparr>dsmr_version = ''5B'', precision = None, reconnect_interval = 30\<rparr>,
          telegram_of = [ELECTRICITY_ACTIVE_TARIFF \<mapsto> [''value'' \<mapsto> PStr ''0001'']],
          hass = True\<rparr>"
  have "state ?e = Inr (PStr ''normal'')"
    using translate_tariff_table [of "PStr ''0001''" "''5B''" ?e]
    by (simp add: get_dsmr_object_attr_def)
  moreover have "translate_tariff (PStr ''0002'') ''5B'' = PStr ''low''"
    using translate_tariff_table [of "PStr ''0002''" "''5B''" ?e] by simp
  moreover have "translate_tariff (PStr ''0001'') ''5B'' = PStr ''normal''"
    using translate_tariff_table [of "PStr ''0001''" "''5B''" ?e] by simp
  moreover have "translate_tariff (PStr ''0001'') ''2.2'' = PStr ''low''"
    using translate_tariff_table [of "PStr ''0001''" "''2.2''" ?e] by simp
  moreover have "translate_tariff (PStr ''0002'') ''2.2'' = PStr ''normal''"
    using translate_tariff_table [of "PStr ''0002''" "''2.2''" ?e] by simp
  moreover have "translate_tariff (PStr ''0003'') ''5B'' = PNone"
    using translate_tariff_table [of "PStr ''0003''" "''5B''" ?e] by simp
  moreover have "translate_tariff PNone ''4'' = PNone"
    using translate_tariff_table [of PNone "''4''" ?e] by simp
  ultimately show ?thesis by blast
qed

text \<open>
  C7: when the stored telegram lacks the entity's OBIS reference, the state and the
  unit are both \<open>None\<close>; so they are for a new entity and after the empty telegram.
\<close>

theorem absent_field_reads_none:
  "(telegram_of e (obis_of e) = None \<longrightarrow>
      state e = Inr PNone \<and> unit_of_measurement e = PNone) \<and>
   state (DSMREntity ob cfg) = Inr PNone \<and>
   unit_of_measurement (DSMREntity ob cfg) = PNone \<and>
   state (fst (update_data Map.empty e)) = Inr PNone \<and>
   unit_of_measurement (fst (update_data Map.empty e)) = PNone"
  by (simp add: state_of_None get_attr_absent unit_of_measurement_def DSMREntity_def
      update_data_def)

theorem absent_field_reads_none_witness:
  "state \<lparr>obis_of = OtherObis ''gas'',
          config_of = \<lparr>dsmr_version = ''5'', precision = None, reconnect_interval = 30\<rparr>,
          telegram_of = [OtherObis ''usage'' \<mapsto> [''value'' \<mapsto> PNum 1]],
          hass = True\<rparr> = Inr PNone \<and>
   unit_of_measurement \<lparr>obis_of = OtherObis ''gas'',
          config_of = \<lparr>dsmr_version = ''5'', precision = None, reconnect_interval = 30\<rparr>,
          telegram_of = [OtherObis ''usage'' \<mapsto> [''value'' \<mapsto> PNum 1]],
          hass = True\<rparr> = PNone"
  using absent_field_reads_none [of "\<lparr>obis_of = OtherObis ''gas'',
          config_of = \<lparr>dsmr_version = ''5'', precision = None, reconnect_interval = 30\<rparr>,
          telegram_of = [OtherObis ''usage'' \<mapsto> [''value'' \<mapsto> PNum 1]],
          hass = True\<rparr>"]
  by simp

text \<open>
  C8, as the code has it: \<open>update_data\<close> always stores the new telegram and changes
  nothing else; it writes the state exactly when the entity is attached to the
  framework and the new telegram has its OBIS reference.
\<close>

theorem update_data_notifies_when_attached:
  "telegram_of (fst (update_data t e)) = t \<and>
   obis_of (fst (update_data t e)) = obis_of e \<and>
   config_of (fst (update_data t e)) = config_of e \<and>
   hass (fst (update_data t e)) = hass e \<and>
   snd (update_data t e) = (hass e \<and> obis_of e \<in> dom t) \<and>
   (hass e \<longrightarrow> snd (update_data t e) = (obis_of e \<in> dom t))"
  by (simp add: update_data_def)

theorem update_data_notifies_when_attached_witness:
  "snd (update_data [OtherObis ''usage'' \<mapsto> [''value'' \<mapsto> PNum 1]]
        \<lparr>obis_of = OtherObis ''usage'',
          config_of = \<lparr>dsmr_version = ''5'', precision = None, reconnect_interval = 30\<rparr>,
          telegram_of = Map.empty, hass = True\<rparr>) \<and>
   \<not> snd (update_data Map.empty
        \<lparr>obis_of = OtherObis ''usage'',
          config_of = \<lparr>dsmr_version = ''5'', precision = None, reconnect_interval = 30\<rparr>,
          telegram_of = [OtherObis ''usage'' \<mapsto> [''value'' \<mapsto> PNum 1]], hass = True\<rparr>) \<and>
   telegram_of (fst (update_data Map.empty
        \<lparr>obis_of = OtherObis ''usage'',
          config_of = \<lparr>dsmr_version = ''5'', precision = None, reconnect_interval = 30\<rparr>,
          telegram_of = [OtherObis ''usage'' \<mapsto> [''value'' \<mapsto> PNum 1]], hass = True\<rparr>))
     = Map.empty"
proof -
  let ?c = "\<lparr>dsmr_version = ''5'', precision = None, reconnect_interval = 30\<rparr>"
  let ?t = "[OtherObis ''usage'' \<mapsto> [''value'' \<mapsto> PNum 1]]"
  have "snd (update_data ?t \<lparr>obis_of = OtherObis ''usage'', config_of = ?c,
          telegram_of = Map.empty, hass = True\<rparr>)"
    using update_data_notifies_when_attached [of ?t "\<lparr>obis_of = OtherObis ''usage'',
          config_of = ?c, telegram_of = Map.empty, hass = True\<rparr>"]
    by simp
  moreover have "\<not> snd (update_data Map.empty \<lparr>obis_of = OtherObis ''usage'', config_of = ?c,
          telegram_of = ?t, hass = True\<rparr>) \<and>
      telegram_of (fst (update_data Map.empty \<lparr>obis_of = OtherObis ''usage'', config_of = ?c,
          telegram_of = ?t, hass = True\<rparr>)) = Map.empty"
    using update_data_notifies_when_attached [of Map.empty "\<lparr>obis_of = OtherObis ''usage'',
          config_of = ?c, telegram_of = ?t, hass = True\<rparr>"]
    by simp
  ultimately show ?thesis by blast
qed

text \<open>
  C8 as stated fails for an entity that is not attached: its field is in the new
  telegram and no state is written.
\<close>

theorem update_data_unattached_present_field:
  "OtherObis ''usage'' \<in> dom [OtherObis ''usage'' \<mapsto> [''value'' \<mapsto> PNum 1]] \<and>
   \<not> snd (update_data [OtherObis ''usage'' \<mapsto> [''value'' \<mapsto> PNum 1]]
        \<lparr>obis_of = OtherObis ''usage'',
          config_of = \<lparr>dsmr_version = ''5'', precision = None, reconnect_interval = 30\<rparr>,
          telegram_of = Map.empty, hass = False\<rparr>)"
  by (simp add: update_data_def)



text \<open>
  C10: an entity that is not attached to the framework writes no state in
  \<open>update_data\<close>, whatever the telegram holds; the telegram is stored, and a read once
  the entity is attached is a read of that telegram.
\<close>

theorem update_data_unattached_is_silent:
  assumes "\<not> hass e"
  shows "\<not> snd (update_data t e) \<and>
         telegram_of (fst (update_data t e)) = t \<and>
         get_dsmr_object_attr ((fst (update_data t e))\<lparr>hass := True\<rparr>) a =
           (case t (obis_of e) of
              None \<Rightarrow> PNone
            | Some ob \<Rightarrow> (case ob a of None \<Rightarrow> PNone | Some v \<Rightarrow> v)) \<and>
         state ((fst (update_data t e))\<lparr>hass := True\<rparr>) =
           state (e\<lparr>telegram_of := t\<rparr>)"
proof -
  have "\<not> snd (update_data t e)"
    using assms by (simp add: update_data_def)
  moreover have "get_dsmr_object_attr ((fst (update_data t e))\<lparr>hass := True\<rparr>) a =
           (case t (obis_of e) of
              None \<Rightarrow> PNone
            | Some ob \<Rightarrow> (case ob a of None \<Rightarrow> PNone | Some v \<Rightarrow> v))"
    by (simp add: get_attr_hass fst_update_data get_dsmr_object_attr_def)
  ultimately show ?thesis
    by (simp add: state_hass fst_update_data)
qed

theorem update_data_unattached_is_silent_witness:
  "\<not> snd (update_data [OtherObis ''usage'' \<mapsto> [''value'' \<mapsto> PNum 1]]
        (DSMREntity (OtherObis ''usage'')
           \<lparr>dsmr_version = ''5'', precision = None, reconnect_interval = 30\<rparr>)) \<and>
   state ((fst (update_data [OtherObis ''usage'' \<mapsto> [''value'' \<mapsto> PNum 1]]
        (DSMREntity (OtherObis ''usage'')
           \<lparr>dsmr_version = ''5'', precision = None, reconnect_interval = 30\<rparr>)))\<lparr>hass := True\<rparr>)
     = Inr (PNum 1)"
proof -
  let ?c = "\<lparr>dsmr_version = ''5'', precision = None, reconnect_interval = 30\<rparr>"
  let ?t = "[OtherObis ''usage'' \<mapsto> [''value'' \<mapsto> PNum 1]]"
  have r: "py_round 1 2 = 1" by code_simp
  have "\<not> hass (DSMREntity (OtherObis ''usage'') ?c)" by (simp add: DSMREntity_def)
  from update_data_unattached_is_silent [OF this, of ?t "''value''"]
  show ?thesis
    by (simp add: DSMREntity_def update_data_def state_def get_dsmr_object_attr_def
        DEFAULT_PRECISION_def r)
qed

section \<open>The claims about the supervisor and the dispatcher\<close>



text \<open>
  C2: for any sequence of calls of the throttled dispatcher with a nonnegative interval,
  the calls that reach the devices are calls of the sequence, in order, each with its own
  telegram, and any two of them are more than the interval apart. A call that comes more
  than the interval after the last forwarded one (so also one after a quiet period longer
  than the interval, when nothing was forwarded before the sequence) is forwarded at once
  and leaves every device with its telegram. Calls inside the window after the last
  forwarded one leave the dispatcher as it was: nothing is kept for later.
\<close>

theorem throttled_dispatch:
  assumes "0 \<le> interval" and "publish_all interval d ps = (d', fws)"
  shows "subseq fws ps \<and>
         sorted_wrt (\<lambda>a b. interval < fst b - fst a) fws \<and>
         (\<forall>now tel. throttle_open interval now (last_call d') \<longrightarrow>
            publish_all interval d (ps @ [(now, tel)]) =
              (d'\<lparr>last_call := Some now,
                   devices := map (\<lambda>e. e\<lparr>telegram_of := tel\<rparr>) (devices d')\<rparr>,
               fws @ [(now, tel)])) \<and>
         (\<forall>now. last_call d = None \<and> (\<forall>p\<in>set ps. interval < now - fst p) \<longrightarrow>
            throttle_open interval now (last_call d')) \<and>
         (\<forall>l qs. last_call d' = Some l \<and> (\<forall>q\<in>set qs. fst q - l \<le> interval) \<longrightarrow>
            publish_all interval d (ps @ qs) = (d', fws))"
proof -
  have a: "subseq fws ps" using assms(2) by (rule publish_all_subseq)
  have b: "sorted_wrt (\<lambda>a b. interval < fst b - fst a) fws"
    using publish_all_spaced [OF assms] by blast
  have c: "publish_all interval d (ps @ [(now, tel)]) =
              (d'\<lparr>last_call := Some now,
                   devices := map (\<lambda>e. e\<lparr>telegram_of := tel\<rparr>) (devices d')\<rparr>,
               fws @ [(now, tel)])"
    if "throttle_open interval now (last_call d')" for now tel
    using that assms(2) by (simp add: publish_all_append publish_open)
  have e: "throttle_open interval now (last_call d')"
    if "last_call d = None" and "\<forall>p\<in>set ps. interval < now - fst p" for now
  proof (cases "fws = []")
    case True
    with that(1) publish_all_last_call [OF assms(2)] show ?thesis
      by (simp add: throttle_open_def)
  next
    case False
    then have "last fws \<in> set fws" by simp
    with a obtain y where "y \<in> set ps" and "last fws = y"
      by (rule list_emb_set)
    then have "last fws \<in> set ps" by simp
    with that(2) have "interval < now - fst (last fws)" by blast
    with False publish_all_last_call [OF assms(2)] show ?thesis
      by (simp add: throttle_open_def)
  qed
  have f: "publish_all interval d (ps @ qs) = (d', fws)"
    if "last_call d' = Some l" and "\<forall>q\<in>set qs. fst q - l \<le> interval" for l qs
    using assms(2) publish_all_window [OF that] by (simp add: publish_all_append)
  show ?thesis
  proof (intro conjI allI impI)
    show "subseq fws ps" by (rule a)
  next
    show "sorted_wrt (\<lambda>a b. interval < fst b - fst a) fws" by (rule b)
  next
    fix now tel
    assume "throttle_open interval now (last_call d')"
    then show "publish_all interval d (ps @ [(now, tel)]) =
              (d'\<lparr>last_call := Some now,
                   devices := map (\<lambda>e. e\<lparr>telegram_of := tel\<rparr>) (devices d')\<rparr>,
               fws @ [(now, tel)])"
      by (rule c)
  next
    fix now
    assume h: "last_call d = None \<and> (\<forall>p\<in>set ps. interval < now - fst p)"
    from h have h1: "last_call d = None" and h2: "\<forall>p\<in>set ps. interval < now - fst p"
      by simp_all
    from h1 h2 show "throttle_open interval now (last_call d')" by (rule e)
  next
    fix l and qs :: "(int \<times> telegram) list"
    assume h: "last_call d' = Some l \<and> (\<forall>q\<in>set qs. fst q - l \<le> interval)"
    from h have h1: "last_call d' = Some l" and h2: "\<forall>q\<in>set qs. fst q - l \<le> interval"
      by simp_all
    from h1 h2 show "publish_all interval d (ps @ qs) = (d', fws)" by (rule f)
  qed
qed

theorem throttled_dispatch_witness:
  "publish_all 30 \<lparr>last_call = None, devices = [DSMREntity (OtherObis ''usage'')
        \<lparr>dsmr_version = ''5'', precision = None, reconnect_interval = 30\<rparr>]\<rparr>
     (([(0, [OtherObis ''usage'' \<mapsto> [''value'' \<mapsto> PNum 0]])] @
       map (\<lambda>k. (int k, [OtherObis ''usage'' \<mapsto> [''value'' \<mapsto> PNum (of_nat k)]])) [1..<30]) @
      [(31, [OtherObis ''usage'' \<mapsto> [''value'' \<mapsto> PNum 31]])]) =
   (\<lparr>last_call = Some 31, devices = [\<lparr>obis_of = OtherObis ''usage'',
        config_of = \<lparr>dsmr_version = ''5'', precision = None, reconnect_interval = 30\<rparr>,
        telegram_of = [OtherObis ''usage'' \<mapsto> [''value'' \<mapsto> PNum 31]], hass = False\<rparr>]\<rparr>,
    [(0, [OtherObis ''usage'' \<mapsto> [''value'' \<mapsto> PNum 0]]),
     (31, [OtherObis ''usage'' \<mapsto> [''value'' \<mapsto> PNum 31]])])"
proof -
  define c where "c = \<lparr>dsmr_version = ''5'', precision = None, reconnect_interval = 30\<rparr>"
  define T :: "rat \<Rightarrow> telegram" where "T = (\<lambda>x. [OtherObis ''usage'' \<mapsto> [''value'' \<mapsto> PNum x]])"
  define d where "d = \<lparr>last_call = None, devices = [DSMREntity (OtherObis ''usage'') c]\<rparr>"
  define d1 where "d1 = \<lparr>last_call = Some 0, devices = [\<lparr>obis_of = OtherObis ''usage'',
      config_of = c, telegram_of = T 0, hass = False\<rparr>]\<rparr>"
  define qs where "qs = map (\<lambda>k. (int k, T (of_nat k))) [1..<30]"
  have i: "(0::int) \<le> 30" by simp
  have first: "publish_all 30 d [(0, T 0)] = (d1, [(0, T 0)])"
    by (simp add: d_def d1_def publish_def throttle_open_def update_entities_telegram_def
        update_data_def DSMREntity_def)
  have w: "\<forall>q\<in>set qs. fst q - 0 \<le> (30::int)" by (auto simp: qs_def)
  have l: "last_call d1 = Some 0" by (simp add: d1_def)
  have "\<forall>l qs. last_call d1 = Some l \<and> (\<forall>q\<in>set qs. fst q - l \<le> 30) \<longrightarrow>
            publish_all 30 d ([(0, T 0)] @ qs) = (d1, [(0, T 0)])"
    using throttled_dispatch [OF i first] by (elim conjE)
  with l w have window: "publish_all 30 d ([(0, T 0)] @ qs) = (d1, [(0, T 0)])"
    by blast
  have o: "throttle_open 30 31 (last_call d1)" by (simp add: throttle_open_def d1_def)
  have "\<forall>now tel. throttle_open 30 now (last_call d1) \<longrightarrow>
            publish_all 30 d (([(0, T 0)] @ qs) @ [(now, tel)]) =
              (d1\<lparr>last_call := Some now,
                   devices := map (\<lambda>e. e\<lparr>telegram_of := tel\<rparr>) (devices d1)\<rparr>,
               [(0, T 0)] @ [(now, tel)])"
    using throttled_dispatch [OF i window] by (elim conjE)
  with o have "publish_all 30 d (([(0, T 0)] @ qs) @ [(31, T 31)]) =
      (d1\<lparr>last_call := Some 31, devices := map (\<lambda>e. e\<lparr>telegram_of := T 31\<rparr>) (devices d1)\<rparr>,
       [(0, T 0)] @ [(31, T 31)])"
    by blast
  then show ?thesis
    unfolding d_def d1_def qs_def T_def c_def by simp
qed

text \<open>
  C1, on the code: after two failed opens in a row the coroutine has logged each and
  started the next connect attempt at once; no sleep stands between the attempts, and
  the loop goes on. After a connection that was open and then closed, the same loop does
  sleep the reconnect interval before it connects again.
\<close>

theorem failed_open_retries_without_sleep:
  "connect_and_reconnect \<lparr>dsmr_version = ''5'', precision = None, reconnect_interval = 30\<rparr> False
     [OpenError, OpenError] =
   Some (initial False, [Connect, LogException, Connect, LogException, Connect]) \<and>
   connect_and_reconnect \<lparr>dsmr_version = ''5'', precision = None, reconnect_interval = 30\<rparr> False
     [OpenOk, Closed, Wake] =
   Some ((initial False)\<lparr>stop_listener := True\<rparr>,
         [Connect, ListenOnce, WaitClosed, Unlisten, UpdateEntitiesEmpty, Sleep 30, Connect])"
  by (simp add: connect_and_reconnect_def loop_head_def initial_def disconnected_def)

text \<open>
  C3, on the code: a telegram is forwarded at second 1 and the connection closes at
  second 10. The supervisor sends the empty telegram, the throttle (interval 30) drops
  it, and the device keeps the telegram of second 1 and its state 1. The supervisor
  sleeps, reconnects, and the next telegram to reach the device is the meter's at second
  42: the empty telegram was never forwarded.
\<close>

theorem disconnect_sentinel_is_throttled:
  "map_option (\<lambda>sys. (pc (supervisor sys), last_call (dispatch sys),
                       map telegram_of (devices (dispatch sys)),
                       map state (devices (dispatch sys))))
     (system_run \<lparr>dsmr_version = ''5'', precision = None, reconnect_interval = 30\<rparr> 30
        \<lparr>supervisor = fst (loop_head (initial False)),
         dispatch = \<lparr>last_call = None,
                     devices = [(DSMREntity (OtherObis ''usage'')
                        \<lparr>dsmr_version = ''5'', precision = None, reconnect_interval = 30\<rparr>)
                        \<lparr>hass := True\<rparr>]\<rparr>\<rparr>
        [(0, Sup OpenOk),
         (1, Telegram [OtherObis ''usage'' \<mapsto> [''value'' \<mapsto> PNum 1]]),
         (10, Sup Closed)]) =
   Some (AwaitSleep, Some 1, [[OtherObis ''usage'' \<mapsto> [''value'' \<mapsto> PNum 1]]],
         [Inr (PNum 1)]) \<and>
   map_option (\<lambda>sys. (pc (supervisor sys), last_call (dispatch sys),
                       map telegram_of (devices (dispatch sys)),
                       map state (devices (dispatch sys))))
     (system_run \<lparr>dsmr_version = ''5'', precision = None, reconnect_interval = 30\<rparr> 30
        \<lparr>supervisor = fst (loop_head (initial False)),
         dispatch = \<lparr>last_call = None,
                     devices = [(DSMREntity (OtherObis ''usage'')
                        \<lparr>dsmr_version = ''5'', precision = None, reconnect_interval = 30\<rparr>)
                        \<lparr>hass := True\<rparr>]\<rparr>\<rparr>
        [(0, Sup OpenOk),
         (1, Telegram [OtherObis ''usage'' \<mapsto> [''value'' \<mapsto> PNum 1]]),
         (10, Sup Closed),
         (40, Sup Wake),
         (41, Sup OpenOk),
         (42, Telegram [OtherObis ''usage'' \<mapsto> [''value'' \<mapsto> PNum 2]])]) =
   Some (AwaitClosed, Some 42, [[OtherObis ''usage'' \<mapsto> [''value'' \<mapsto> PNum 2]]],
         [Inr (PNum 2)])"
proof -
  define c where "c = \<lparr>dsmr_version = ''5'', precision = None, reconnect_interval = 30\<rparr>"
  define T :: "rat \<Rightarrow> telegram" where
    "T = (\<lambda>x. [OtherObis ''usage'' \<mapsto> [''value'' \<mapsto> PNum x]])"
  define e :: "telegram \<Rightarrow> dsmr_entity" where
    "e = (\<lambda>t. \<lparr>obis_of = OtherObis ''usage'', config_of = c, telegram_of = t, hass = True\<rparr>)"
  define s :: "pc \<Rightarrow> bool \<Rightarrow> bool \<Rightarrow> sup" where
    "s = (\<lambda>p sl op. \<lparr>pc = p, stop_listener = sl, transport = op, protocol = op,
      listening = op, conn_open = op, stopping = False\<rparr>)"
  define sys :: "sup \<Rightarrow> int option \<Rightarrow> telegram \<Rightarrow> system" where
    "sys = (\<lambda>su l t. \<lparr>supervisor = su, dispatch = \<lparr>last_call = l, devices = [e t]\<rparr>\<rparr>)"
  have sys0: "\<lparr>supervisor = fst (loop_head (initial False)),
         dispatch = \<lparr>last_call = None,
                     devices = [(DSMREntity (OtherObis ''usage'') c)\<lparr>hass := True\<rparr>]\<rparr>\<rparr>
      = sys (s AwaitOpen False False) None Map.empty"
    by (simp add: sys_def s_def e_def loop_head_def initial_def DSMREntity_def)
  have st1: "system_step c 30 (sys (s AwaitOpen False False) None Map.empty) (0, Sup OpenOk)
      = Some (sys (s AwaitClosed True True) None Map.empty)"
    by (simp add: system_step_def sys_def s_def)
  have st2: "system_step c 30 (sys (s AwaitClosed True True) None Map.empty) (1, Telegram (T 1))
      = Some (sys (s AwaitClosed True True) (Some 1) (T 1))"
    by (simp add: system_step_def sys_def s_def e_def publish_def throttle_open_def
        update_entities_telegram_def update_data_def)
  have st3: "system_step c 30 (sys (s AwaitClosed True True) (Some 1) (T 1)) (10, Sup Closed)
      = Some (sys (s AwaitSleep True False) (Some 1) (T 1))"
    by (simp add: system_step_def sys_def s_def disconnected_def publish_def throttle_open_def)
  have st4: "system_step c 30 (sys (s AwaitSleep True False) (Some 1) (T 1)) (40, Sup Wake)
      = Some (sys (s AwaitOpen True False) (Some 1) (T 1))"
    by (simp add: system_step_def sys_def s_def loop_head_def)
  have st5: "system_step c 30 (sys (s AwaitOpen True False) (Some 1) (T 1)) (41, Sup OpenOk)
      = Some (sys (s AwaitClosed True True) (Some 1) (T 1))"
    by (simp add: system_step_def sys_def s_def)
  have st6: "system_step c 30 (sys (s AwaitClosed True True) (Some 1) (T 1)) (42, Telegram (T 2))
      = Some (sys (s AwaitClosed True True) (Some 42) (T 2))"
    by (simp add: system_step_def sys_def s_def e_def publish_def throttle_open_def
        update_entities_telegram_def update_data_def)
  have r1: "py_round 1 2 = 1" by code_simp
  have r2: "py_round 2 2 = 2" by code_simp
  have v1: "state (e (T 1)) = Inr (PNum 1)"
    by (simp add: state_def get_dsmr_object_attr_def e_def T_def c_def DEFAULT_PRECISION_def r1)
  have v2: "state (e (T 2)) = Inr (PNum 2)"
    by (simp add: state_def get_dsmr_object_attr_def e_def T_def c_def DEFAULT_PRECISION_def r2)
  have run3: "system_run c 30 (sys (s AwaitOpen False False) None Map.empty)
      [(0, Sup OpenOk), (1, Telegram (T 1)), (10, Sup Closed)]
      = Some (sys (s AwaitSleep True False) (Some 1) (T 1))"
    by (simp add: st1 st2 st3)
  have run6: "system_run c 30 (sys (s AwaitOpen False False) None Map.empty)
      [(0, Sup OpenOk), (1, Telegram (T 1)), (10, Sup Closed), (40, Sup Wake), (41, Sup OpenOk),
       (42, Telegram (T 2))]
      = Some (sys (s AwaitClosed True True) (Some 42) (T 2))"
    by (simp add: st1 st2 st3 st4 st5 st6)
  have o3: "map_option (\<lambda>sys. (pc (supervisor sys), last_call (dispatch sys),
                       map telegram_of (devices (dispatch sys)),
                       map state (devices (dispatch sys))))
      (Some (sys (s AwaitSleep True False) (Some 1) (T 1)))
      = Some (AwaitSleep, Some 1, [T 1], [Inr (PNum 1)])"
    using v1 by (simp add: sys_def s_def e_def)
  have o6: "map_option (\<lambda>sys. (pc (supervisor sys), last_call (dispatch sys),
                       map telegram_of (devices (dispatch sys)),
                       map state (devices (dispatch sys))))
      (Some (sys (s AwaitClosed True True) (Some 42) (T 2)))
      = Some (AwaitClosed, Some 42, [T 2], [Inr (PNum 2)])"
    using v2 by (simp add: sys_def s_def e_def)
  have T1: "[OtherObis ''usage'' \<mapsto> [''value'' \<mapsto> PNum 1]] = T 1" by (simp add: T_def)
  have T2: "[OtherObis ''usage'' \<mapsto> [''value'' \<mapsto> PNum 2]] = T 2" by (simp add: T_def)
  show ?thesis
    unfolding c_def [symmetric] sys0 T1 T2 run3 run6 o3 o6 by simp
qed

end
